theory Spec2Isabelle
  imports Main "HOL-Library.Word"
begin

section \<open>Values of the empty interface type\<close>

text \<open>
  The programs of \<^verbatim>\<open>src/05/main.go\<close> and \<^verbatim>\<open>src/07/main.go\<close> keep a
  \<^verbatim>\<open>map[string]interface{}\<close> called \<^verbatim>\<open>person\<close>. An interface value is either
  \<^verbatim>\<open>nil\<close> or a value together with its dynamic type. The programs store a string, an
  \<^verbatim>\<open>int\<close> and a \<^verbatim>\<open>float64\<close>:
  \<^item> \<^verbatim>\<open>int\<close> is the 64-bit signed integer of the 64-bit targets; \<open>+\<close> wraps around;
  \<^item> a \<^verbatim>\<open>float64\<close> is carried as its IEEE-754 bit pattern. The programs only store
    and print it, they never compute with it.
\<close>

datatype iface = Nil | StringV string | IntV "64 word" | Float64V "64 word"

datatype type_tag = TString | TInt | TFloat64

fun dynamic_type :: "iface \<Rightarrow> type_tag option" where
  "dynamic_type Nil = None"
| "dynamic_type (StringV s) = Some TString"
| "dynamic_type (IntV n) = Some TInt"
| "dynamic_type (Float64V f) = Some TFloat64"

text \<open>The zero value of a type, which a failed comma-ok assertion returns.\<close>

fun zero_value :: "type_tag \<Rightarrow> iface" where
  "zero_value TString = StringV []"
| "zero_value TInt = IntV 0"
| "zero_value TFloat64 = Float64V 0"

section \<open>The record: a string-keyed map\<close>

type_synonym person_map = "string \<rightharpoonup> iface"

text \<open>
  \<^verbatim>\<open>person[key]\<close> read as a value: an absent key gives the zero value of the element
  type, which for \<^verbatim>\<open>interface{}\<close> is \<^verbatim>\<open>nil\<close>.
\<close>

definition map_index :: "person_map \<Rightarrow> string \<Rightarrow> iface" where
  "map_index person key = (case person key of None \<Rightarrow> Nil | Some v \<Rightarrow> v)"

text \<open>
  \<^verbatim>\<open>person[key] = value\<close> (src/05/main.go lines 12 to 14 and 29): the spec's
  \<^verbatim>\<open>set\<close>. It inserts or overwrites and cannot fail.
\<close>

definition set_field :: "person_map \<Rightarrow> string \<Rightarrow> iface \<Rightarrow> person_map" where
  "set_field person key v = person(key \<mapsto> v)"

text \<open>
  The comma-ok type assertion \<^verbatim>\<open>v, ok := x.(T)\<close>: it never panics; when the dynamic
  type of \<open>x\<close> is not \<open>T\<close> (in particular when \<open>x\<close> is \<^verbatim>\<open>nil\<close>) it gives the zero
  value of \<open>T\<close> and \<open>ok = false\<close>.
\<close>

definition type_assert :: "iface \<Rightarrow> type_tag \<Rightarrow> iface \<times> bool" where
  "type_assert x T = (if dynamic_type x = Some T then (x, True) else (zero_value T, False))"

text \<open>
  \<^verbatim>\<open>v, ok := person[key].(T)\<close>: the spec's \<^verbatim>\<open>getTyped\<close>. The programs use it with
  \<^verbatim>\<open>key = "age"\<close> and \<^verbatim>\<open>T = int\<close> (src/05/main.go line 23, src/07/main.go line 12).
\<close>

definition getTyped :: "person_map \<Rightarrow> string \<Rightarrow> type_tag \<Rightarrow> iface \<times> bool" where
  "getTyped person key T = type_assert (map_index person key) T"

text \<open>
  The instance the programs contain, \<^verbatim>\<open>age, ok := x.(int)\<close>, whose result variable
  \<^verbatim>\<open>age\<close> has the static type \<^verbatim>\<open>int\<close>.
\<close>

definition assert_int :: "iface \<Rightarrow> 64 word \<times> bool" where
  "assert_int x = (case x of IntV n \<Rightarrow> (n, True) | _ \<Rightarrow> (0, False))"

section \<open>Read, narrow, modify, write\<close>

text \<open>
  \<^verbatim>\<open>log.Fatal(msg)\<close> writes the message to the log and ends the program with
  \<^verbatim>\<open>os.Exit(1)\<close>. It is the only failure the programs have.
\<close>

datatype error = LogFatal string

text \<open>
  Lines 23 to 29 of src/05/main.go, which are lines 12 to 18 of src/07/main.go, with the
  key as a parameter (the programs use \<^verbatim>\<open>"age"\<close>): the spec's
  \<^verbatim>\<open>incrementIntField\<close>.

  \<^verbatim>\<open>
  age, ok := person["age"].(int)
  if !ok {
      log.Fatal("could not assert value to int")
      return
  }
  person["age"] = age + 1
  \<close>

  The result is the map as the code leaves it, and how the code ended.
\<close>

definition incrementIntField :: "string \<Rightarrow> person_map \<Rightarrow> person_map \<times> (error + unit)" where
  "incrementIntField key person =
     (let (age, ok) = assert_int (map_index person key) in
      if \<not> ok then (person, Inl (LogFatal ''could not assert value to int''))
      else (set_field person key (IntV (age + 1)), Inr ()))"

text \<open>
  The record both programs build before the increment (src/05/main.go lines 10 to 14,
  src/07/main.go lines 6 to 10). \<open>0x4064F47AE147AE14\<close> is the \<^verbatim>\<open>float64\<close> nearest
  to 167.64.
\<close>

definition person_init :: person_map where
  "person_init =
     set_field (set_field (set_field Map.empty
       ''name'' (StringV ''Alice''))
       ''age'' (IntV 21))
       ''height'' (Float64V 0x4064F47AE147AE14)"

text \<open>
  A record as the programs build it: \<^verbatim>\<open>make(map[string]interface{}, 0)\<close> followed
  by assignments \<^verbatim>\<open>person[k] = v\<close> in the order of the list.
\<close>

fun assignments :: "person_map \<Rightarrow> (string \<times> iface) list \<Rightarrow> person_map" where
  "assignments person [] = person"
| "assignments person ((k, v) # kvs) = assignments (set_field person k v) kvs"

section \<open>The same lines, one statement at a time\<close>

text \<open>
  To say which statements a run reaches, the lines of \<^verbatim>\<open>incrementIntField\<close> are also
  given as a machine with a program counter:
  \<^item> \<open>Narrow\<close>: \<^verbatim>\<open>age, ok := person[key].(int)\<close>;
  \<^item> \<open>Check\<close>: \<^verbatim>\<open>if !ok\<close>;
  \<^item> \<open>Abort\<close>: \<^verbatim>\<open>log.Fatal("could not assert value to int")\<close>, which logs and exits,
    so that the \<^verbatim>\<open>return\<close> after it is never executed;
  \<^item> \<open>Add\<close>: the right-hand side \<^verbatim>\<open>age + 1\<close>;
  \<^item> \<open>Store\<close>: the assignment \<^verbatim>\<open>person[key] = ...\<close>;
  \<^item> \<open>Exited\<close>: the process has ended with \<^verbatim>\<open>os.Exit(1)\<close>;
  \<^item> \<open>Finished\<close>: control has passed the assignment.
\<close>

datatype pc = Narrow | Check | Abort | Add | Store | Exited | Finished

record config =
  c_pc :: pc
  c_person :: person_map
  c_age :: "64 word"
  c_ok :: bool
  c_sum :: "64 word"
  c_log :: "string list"

definition start :: "person_map \<Rightarrow> config" where
  "start person =
     \<lparr>c_pc = Narrow, c_person = person, c_age = 0, c_ok = False, c_sum = 0, c_log = []\<rparr>"

definition step :: "string \<Rightarrow> config \<Rightarrow> config option" where
  "step key c =
     (case c_pc c of
        Narrow \<Rightarrow>
          (let (a, b) = assert_int (map_index (c_person c) key)
           in Some (c\<lparr>c_pc := Check, c_age := a, c_ok := b\<rparr>))
      | Check \<Rightarrow> Some (c\<lparr>c_pc := (if \<not> c_ok c then Abort else Add)\<rparr>)
      | Abort \<Rightarrow>
          Some (c\<lparr>c_pc := Exited, c_log := c_log c @ [''could not assert value to int'']\<rparr>)
      | Add \<Rightarrow> Some (c\<lparr>c_pc := Store, c_sum := c_age c + 1\<rparr>)
      | Store \<Rightarrow>
          Some (c\<lparr>c_pc := Finished, c_person := set_field (c_person c) key (IntV (c_sum c))\<rparr>)
      | Exited \<Rightarrow> None
      | Finished \<Rightarrow> None)"

text \<open>At most \<open>n\<close> steps; a halted configuration stays as it is.\<close>

fun run :: "nat \<Rightarrow> string \<Rightarrow> config \<Rightarrow> config" where
  "run 0 key c = c"
| "run (Suc n) key c = (case step key c of None \<Rightarrow> c | Some c' \<Rightarrow> run n key c')"

text \<open>The configurations a run passes through.\<close>

inductive reaches :: "string \<Rightarrow> config \<Rightarrow> config \<Rightarrow> bool"
  for key :: string and c :: config where
  reaches_here: "reaches key c c"
| reaches_then: "reaches key c c' \<Longrightarrow> step key c' = Some c'' \<Longrightarrow> reaches key c c''"

text \<open>
  Where a run whose narrowing fails can be: before the narrowing, at the check with
  \<open>ok = false\<close>, at the fatal call, or exited; the map is still the one it started with and no sum has
  been computed.
\<close>

definition failing :: "person_map \<Rightarrow> config \<Rightarrow> bool" where
  "failing person c \<longleftrightarrow>
     c_person c = person \<and> c_sum c = 0 \<and>
     (case c_pc c of
        Narrow \<Rightarrow> c_log c = []
      | Check \<Rightarrow> c_ok c = False \<and> c_log c = []
      | Abort \<Rightarrow> c_log c = []
      | Exited \<Rightarrow> c_log c = [''could not assert value to int'']
      | _ \<Rightarrow> False)"

section \<open>Basic facts\<close>

lemma map_index_simps:
  "person key = None \<Longrightarrow> map_index person key = Nil"
  "person key = Some v \<Longrightarrow> map_index person key = v"
  by (simp_all add: map_index_def)

lemma assert_int_type_assert:
  "type_assert x TInt = (IntV (fst (assert_int x)), snd (assert_int x))"
  by (cases x) (simp_all add: type_assert_def assert_int_def)

lemma assert_int_ok_iff: "snd (assert_int x) \<longleftrightarrow> dynamic_type x = Some TInt"
  by (cases x) (simp_all add: assert_int_def)

lemma assert_int_fail: "dynamic_type x \<noteq> Some TInt \<Longrightarrow> assert_int x = (0, False)"
  by (cases x) (simp_all add: assert_int_def)

lemma incrementIntField_ok:
  "person key = Some (IntV n) \<Longrightarrow>
   incrementIntField key person = (person(key \<mapsto> IntV (n + 1)), Inr ())"
  by (simp add: incrementIntField_def map_index_def assert_int_def set_field_def)

lemma incrementIntField_fail:
  "dynamic_type (map_index person key) \<noteq> Some TInt \<Longrightarrow>
   incrementIntField key person = (person, Inl (LogFatal ''could not assert value to int''))"
  by (simp add: incrementIntField_def assert_int_fail)

lemma getTyped_absent: "person k = None \<Longrightarrow> getTyped person k T = (zero_value T, False)"
  by (simp add: getTyped_def map_index_def type_assert_def)

lemma getTyped_present:
  "person k = Some v \<Longrightarrow> getTyped person k T = type_assert v T"
  by (simp add: getTyped_def map_index_def)

lemma dynamic_type_zero_value: "dynamic_type (zero_value T) = Some T"
  by (cases T) simp_all

lemma assignments_absent:
  "person k = None \<Longrightarrow> k \<notin> fst ` set kvs \<Longrightarrow> assignments person kvs k = None"
proof (induction kvs arbitrary: person)
  case Nil
  then show ?case by simp
next
  case (Cons kv kvs)
  obtain k' v' where kv: "kv = (k', v')" by (cases kv)
  from Cons.prems kv have "k' \<noteq> k" and rest: "k \<notin> fst ` set kvs" by auto
  with Cons.prems have "set_field person k' v' k = None" by (simp add: set_field_def)
  with Cons.IH [of "set_field person k' v'"] rest kv show ?case by simp
qed

section \<open>The machine and the function agree\<close>

lemma step_failing:
  assumes "\<not> snd (assert_int (map_index person key))"
      and "failing person c" and "step key c = Some c'"
  shows "failing person c'"
  using assms
  by (cases "c_pc c") (auto simp: failing_def step_def split: prod.splits)

lemma reaches_failing:
  assumes "\<not> snd (assert_int (map_index person key))"
      and "reaches key (start person) c"
  shows "failing person c"
  using assms(2)
proof (induction rule: reaches.induct)
  case reaches_here
  show ?case by (simp add: failing_def start_def)
next
  case (reaches_then c' c'')
  from step_failing [OF assms(1) reaches_then.IH reaches_then.hyps(2)] show ?case .
qed

lemma reaches_first:
  "reaches key c' d \<Longrightarrow> step key c = Some c' \<Longrightarrow> reaches key c d"
proof (induction rule: reaches.induct)
  case reaches_here
  then show ?case by (blast intro: reaches.intros)
next
  case (reaches_then d d')
  then show ?case by (blast intro: reaches.intros)
qed

lemma reaches_run: "reaches key c (run n key c)"
proof (induction n arbitrary: c)
  case 0
  show ?case by (simp add: reaches_here)
next
  case (Suc n)
  show ?case
  proof (cases "step key c")
    case None
    then show ?thesis by (simp add: reaches_here)
  next
    case (Some c')
    with Suc [of c'] show ?thesis by (simp add: reaches_first)
  qed
qed

lemma run_Suc_end: "run (Suc n) key c = run 1 key (run n key c)"
proof (induction n arbitrary: c)
  case 0
  show ?case by simp
next
  case (Suc n)
  show ?case
  proof (cases "step key c")
    case None
    then show ?thesis by simp
  next
    case (Some c')
    with Suc [of c'] show ?thesis by simp
  qed
qed

lemma run_more: "step key (run n key c) = None \<Longrightarrow> run (Suc n) key c = run n key c"
  by (simp only: run_Suc_end [of n]) simp

lemma run_fail:
  assumes "\<not> snd (assert_int (map_index person key))"
  shows "run 3 key (start person) =
         \<lparr>c_pc = Exited, c_person = person, c_age = fst (assert_int (map_index person key)),
          c_ok = False, c_sum = 0, c_log = [''could not assert value to int'']\<rparr>"
proof -
  obtain a where "assert_int (map_index person key) = (a, False)"
    using assms by (cases "assert_int (map_index person key)") simp
  then show ?thesis
    by (simp add: numeral_3_eq_3 step_def start_def)
qed

lemma run_ok:
  assumes "snd (assert_int (map_index person key))"
  shows "run 4 key (start person) =
         \<lparr>c_pc = Finished,
          c_person = set_field person key (IntV (fst (assert_int (map_index person key)) + 1)),
          c_age = fst (assert_int (map_index person key)),
          c_ok = True, c_sum = fst (assert_int (map_index person key)) + 1, c_log = []\<rparr>"
proof -
  obtain a where "assert_int (map_index person key) = (a, True)"
    using assms by (cases "assert_int (map_index person key)") simp
  then show ?thesis
    by (simp add: eval_nat_numeral step_def start_def)
qed

lemma run_incrementIntField:
  "incrementIntField key person =
     (let c = run 4 key (start person)
      in (c_person c, if c_pc c = Exited then Inl (LogFatal (last (c_log c))) else Inr ()))"
proof (cases "assert_int (map_index person key)")
  case (Pair a b)
  show ?thesis
  proof (cases b)
    case True
    with Pair have "snd (assert_int (map_index person key))" by simp
    from run_ok [OF this] Pair True show ?thesis
      by (simp add: incrementIntField_def)
  next
    case False
    with Pair have no: "\<not> snd (assert_int (map_index person key))" by simp
    have "step key (run 3 key (start person)) = None"
      by (simp add: run_fail [OF no] step_def)
    then have "run 4 key (start person) = run 3 key (start person)"
      using run_more [of key 3 "start person"] by simp
    with run_fail [OF no] Pair False show ?thesis
      by (simp add: incrementIntField_def)
  qed
qed

section \<open>Incrementing an integer field\<close>

text \<open>
  C1. If the record maps \<^verbatim>\<open>"age"\<close> to the integer 21, then incrementing \<^verbatim>\<open>"age"\<close>
  succeeds, the record afterwards maps \<^verbatim>\<open>"age"\<close> to the integer 22, and every other key
  maps to what it mapped to before.
\<close>

theorem increment_age_21:
  assumes "person ''age'' = Some (IntV 21)"
  shows "snd (incrementIntField ''age'' person) = Inr ()
       \<and> fst (incrementIntField ''age'' person) ''age'' = Some (IntV 22)
       \<and> (\<forall>k. k \<noteq> ''age'' \<longrightarrow> fst (incrementIntField ''age'' person) k = person k)"
  using assms incrementIntField_ok [of person "''age''" 21] by simp

theorem increment_age_21_witness:
  "person_init ''age'' = Some (IntV 21)
   \<and> snd (incrementIntField ''age'' person_init) = Inr ()
   \<and> fst (incrementIntField ''age'' person_init) ''age'' = Some (IntV 22)
   \<and> fst (incrementIntField ''age'' person_init) ''name'' = Some (StringV ''Alice'')
   \<and> fst (incrementIntField ''age'' person_init) ''height'' = Some (Float64V 0x4064F47AE147AE14)"
proof -
  have h: "person_init ''age'' = Some (IntV 21)"
    by (simp add: person_init_def set_field_def)
  have n: "person_init ''name'' = Some (StringV ''Alice'')"
    and f: "person_init ''height'' = Some (Float64V 0x4064F47AE147AE14)"
    by (simp_all add: person_init_def set_field_def)
  from increment_age_21 [of person_init] n f h show ?thesis by simp
qed

text \<open>
  C3. If the key holds a string (as \<^verbatim>\<open>"age"\<close> bound to \<^verbatim>\<open>"21"\<close>), the increment fails
  with the failure of the assertion to \<^verbatim>\<open>int\<close>, which is the type mismatch of the spec
  and the only error the code has, and the record is left exactly as it was.
\<close>

theorem increment_string_field:
  assumes "person key = Some (StringV s)"
  shows "incrementIntField key person
         = (person, Inl (LogFatal ''could not assert value to int''))"
proof -
  from assms have "dynamic_type (map_index person key) \<noteq> Some TInt"
    by (simp add: map_index_def)
  then show ?thesis by (rule incrementIntField_fail)
qed

theorem increment_string_field_witness:
  "[''age'' \<mapsto> StringV ''21''] ''age'' = Some (StringV ''21'')
   \<and> incrementIntField ''age'' [''age'' \<mapsto> StringV ''21'']
       = ([''age'' \<mapsto> StringV ''21''], Inl (LogFatal ''could not assert value to int''))"
  using increment_string_field [of "[''age'' \<mapsto> StringV ''21'']" "''age''" "''21''"]
  by simp

text \<open>
  C4, as stated, fails: the claim wants an absent key to give a \<open>Missing\<close> error that can
  be told from \<open>TypeMismatch\<close>. On the empty record, and on the record that binds
  \<^verbatim>\<open>"age"\<close> to the string \<^verbatim>\<open>"21"\<close>, the code ends with the very same error.
\<close>

theorem missing_same_as_mismatch:
  "snd (incrementIntField ''age'' Map.empty)
     = snd (incrementIntField ''age'' [''age'' \<mapsto> StringV ''21''])
   \<and> snd (incrementIntField ''age'' Map.empty)
     = Inl (LogFatal ''could not assert value to int'')"
  by (simp add: incrementIntField_def map_index_def assert_int_def)

text \<open>
  C4, amended. If the record has no binding for the key, the increment fails with the
  fatal error \<^verbatim>\<open>could not assert value to int\<close>, the same one a value of the wrong type
  gives, and the record is left exactly as it was.
\<close>

theorem increment_missing_field:
  assumes "person key = None"
  shows "incrementIntField key person
         = (person, Inl (LogFatal ''could not assert value to int''))"
proof -
  from assms have "dynamic_type (map_index person key) \<noteq> Some TInt"
    by (simp add: map_index_def)
  then show ?thesis by (rule incrementIntField_fail)
qed

theorem increment_missing_field_witness:
  "[''name'' \<mapsto> StringV ''Alice''] ''age'' = None
   \<and> incrementIntField ''age'' [''name'' \<mapsto> StringV ''Alice'']
       = ([''name'' \<mapsto> StringV ''Alice''], Inl (LogFatal ''could not assert value to int''))"
  using increment_missing_field [of "[''name'' \<mapsto> StringV ''Alice'']" "''age''"]
  by simp

text \<open>
  C10. The increment keeps the key set of the record in every outcome: when it succeeds
  it writes under a key that was already bound, when it fails it writes nothing.
\<close>

theorem incrementIntField_dom: "dom (fst (incrementIntField key person)) = dom person"
proof (cases "dynamic_type (map_index person key) = Some TInt")
  case True
  then obtain n where "person key = Some (IntV n)"
    by (cases "person key"; cases "map_index person key") (auto simp: map_index_def)
  then show ?thesis by (auto simp: incrementIntField_ok)
next
  case False
  then show ?thesis by (simp add: incrementIntField_fail)
qed

theorem incrementIntField_dom_witness:
  "dom (fst (incrementIntField ''age'' person_init)) = {''name'', ''age'', ''height''}
   \<and> dom (fst (incrementIntField ''weight'' person_init)) = {''name'', ''age'', ''height''}
   \<and> dom (fst (incrementIntField ''name'' person_init)) = {''name'', ''age'', ''height''}"
proof -
  have d: "dom person_init = {''name'', ''age'', ''height''}"
    by (auto simp: person_init_def set_field_def)
  show ?thesis
    using incrementIntField_dom [of "''age''" person_init]
      incrementIntField_dom [of "''weight''" person_init]
      incrementIntField_dom [of "''name''" person_init]
    by (simp only: d)
qed

section \<open>Typed reads\<close>

text \<open>
  C2. For every key \<open>k\<close> and every value \<open>v\<close> of one of the supported types, on any
  record, the typed read of \<open>k\<close> at the type of \<open>v\<close> right after \<open>set(k, v)\<close> gives
  \<open>(v, true)\<close>.
\<close>

theorem set_then_getTyped:
  assumes "dynamic_type v = Some T"
  shows "getTyped (set_field person k v) k T = (v, True)"
  using assms by (simp add: getTyped_def set_field_def map_index_def type_assert_def)

theorem set_then_getTyped_witness:
  "dynamic_type (IntV 21) = Some TInt
   \<and> getTyped (set_field Map.empty ''age'' (IntV 21)) ''age'' TInt = (IntV 21, True)
   \<and> dynamic_type (StringV ''Alice'') = Some TString
   \<and> getTyped (set_field person_init ''name'' (StringV ''Alice'')) ''name'' TString
       = (StringV ''Alice'', True)"
  using set_then_getTyped [of "IntV 21" TInt Map.empty "''age''"]
    set_then_getTyped [of "StringV ''Alice''" TString person_init "''name''"]
  by simp

text \<open>
  C5. If the key holds a value of type \<open>T1\<close> and \<open>T2\<close> is another type, the typed read
  at \<open>T2\<close> gives \<open>ok = false\<close>. It raises nothing (the read is a total function with no
  error result), and what it returns beside the flag is the zero value of \<open>T2\<close>, not the
  stored value: nothing is coerced.
\<close>

theorem getTyped_other_type:
  assumes "person k = Some v" and "dynamic_type v = Some T1" and "T2 \<noteq> T1"
  shows "getTyped person k T2 = (zero_value T2, False) \<and> fst (getTyped person k T2) \<noteq> v"
proof -
  from assms have r: "getTyped person k T2 = (zero_value T2, False)"
    by (auto simp: getTyped_present type_assert_def)
  have "dynamic_type (zero_value T2) \<noteq> dynamic_type v"
    using assms(2,3) by (simp add: dynamic_type_zero_value)
  then have "zero_value T2 \<noteq> v" by blast
  with r show ?thesis by simp
qed

theorem getTyped_other_type_witness:
  "person_init ''age'' = Some (IntV 21) \<and> dynamic_type (IntV 21) = Some TInt
   \<and> TString \<noteq> TInt
   \<and> getTyped person_init ''age'' TString = (StringV [], False)
   \<and> fst (getTyped person_init ''age'' TString) \<noteq> IntV 21"
proof -
  have h: "person_init ''age'' = Some (IntV 21)"
    by (simp add: person_init_def set_field_def)
  from getTyped_other_type [of person_init "''age''" "IntV 21" TInt TString] h
  show ?thesis by simp
qed

text \<open>
  C6. If the record was made empty and the key \<open>k\<close> is not among the keys assigned
  since, then the typed read of \<open>k\<close> gives \<open>ok = false\<close> at every type.
\<close>

theorem getTyped_never_inserted:
  assumes "k \<notin> fst ` set kvs"
  shows "snd (getTyped (assignments Map.empty kvs) k T) = False"
proof -
  from assms have "assignments Map.empty kvs k = None"
    by (simp add: assignments_absent)
  then show ?thesis by (simp add: getTyped_absent)
qed

theorem getTyped_never_inserted_witness:
  "''weight'' \<notin> fst ` set [(''name'', StringV ''Alice''), (''age'', IntV 21),
                          (''height'', Float64V 0x4064F47AE147AE14)]
   \<and> assignments Map.empty [(''name'', StringV ''Alice''), (''age'', IntV 21),
                          (''height'', Float64V 0x4064F47AE147AE14)] = person_init
   \<and> snd (getTyped person_init ''weight'' TFloat64) = False"
proof -
  have e: "assignments Map.empty [(''name'', StringV ''Alice''), (''age'', IntV 21),
                          (''height'', Float64V 0x4064F47AE147AE14)] = person_init"
    by (simp add: person_init_def)
  have n: "''weight'' \<notin> fst ` set [(''name'', StringV ''Alice''), (''age'', IntV 21),
                          (''height'', Float64V 0x4064F47AE147AE14)]"
    by simp
  from getTyped_never_inserted [OF n, of TFloat64] e n show ?thesis by simp
qed

section \<open>Failure of the narrowing\<close>

text \<open>
  C7. When the typed read at \<^verbatim>\<open>int\<close> fails (absent key or wrong type), the run aborts
  at the narrowing: no configuration it passes through is at the addition, at the
  assignment or past it, the map is never written and no sum is computed; after the
  narrowing and the check the run is at the fatal call, and one step later it has exited
  with the message logged and takes no further step.
\<close>

theorem failed_narrowing_aborts:
  assumes "snd (getTyped person key TInt) = False"
  shows "(\<forall>c. reaches key (start person) c \<longrightarrow>
            c_pc c \<notin> {Add, Store, Finished} \<and> c_person c = person \<and> c_sum c = 0)
       \<and> reaches key (start person) (run 3 key (start person))
       \<and> c_pc (run 2 key (start person)) = Abort
       \<and> c_pc (run 3 key (start person)) = Exited
       \<and> c_log (run 3 key (start person)) = [''could not assert value to int'']
       \<and> step key (run 3 key (start person)) = None"
proof -
  from assms have no: "\<not> snd (assert_int (map_index person key))"
    by (simp add: getTyped_def assert_int_type_assert)
  have "c_pc c \<notin> {Add, Store, Finished} \<and> c_person c = person \<and> c_sum c = 0"
    if "reaches key (start person) c" for c
    using reaches_failing [OF no that] by (auto simp: failing_def)
  moreover have "c_pc (run 2 key (start person)) = Abort"
  proof -
    obtain a where "assert_int (map_index person key) = (a, False)"
      using no by (cases "assert_int (map_index person key)") simp
    then show ?thesis by (simp add: numeral_2_eq_2 step_def start_def)
  qed
  moreover have "reaches key (start person) (run 3 key (start person))"
    by (rule reaches_run)
  moreover have "step key (run 3 key (start person)) = None"
    by (simp add: run_fail [OF no] step_def)
  ultimately show ?thesis
    by (simp add: run_fail [OF no])
qed

theorem failed_narrowing_aborts_witness:
  "snd (getTyped [''age'' \<mapsto> StringV ''21''] ''age'' TInt) = False
   \<and> c_pc (run 3 ''age'' (start [''age'' \<mapsto> StringV ''21''])) = Exited
   \<and> c_pc (run 3 ''age'' (start [''age'' \<mapsto> StringV ''21''])) \<notin> {Add, Store, Finished}
   \<and> c_person (run 3 ''age'' (start [''age'' \<mapsto> StringV ''21''])) = [''age'' \<mapsto> StringV ''21'']
   \<and> c_sum (run 3 ''age'' (start [''age'' \<mapsto> StringV ''21''])) = 0"
proof -
  let ?p = "[''age'' \<mapsto> StringV ''21'']"
  have h: "snd (getTyped ?p ''age'' TInt) = False"
    by (simp add: getTyped_def map_index_def type_assert_def)
  note a = failed_narrowing_aborts [OF h]
  from a have "reaches ''age'' (start ?p) (run 3 ''age'' (start ?p))" by blast
  with a have "c_pc (run 3 ''age'' (start ?p)) \<notin> {Add, Store, Finished}
      \<and> c_person (run 3 ''age'' (start ?p)) = ?p \<and> c_sum (run 3 ''age'' (start ?p)) = 0"
    by blast
  with a h show ?thesis by blast
qed

text \<open>
  C9. The two causes of a failed narrowing cannot be told apart: on an absent key and on
  a key bound to a value that is not an \<^verbatim>\<open>int\<close>, the assertion gives the same pair
  \<open>(0, false)\<close>, the typed read gives the same result, and the increment ends with the
  same fatal message \<^verbatim>\<open>could not assert value to int\<close>.
\<close>

theorem missing_and_mismatch_alike:
  assumes "p1 k1 = None" and "p2 k2 = Some v" and "dynamic_type v \<noteq> Some TInt"
  shows "assert_int (map_index p1 k1) = (0, False)
       \<and> assert_int (map_index p2 k2) = (0, False)
       \<and> getTyped p1 k1 TInt = getTyped p2 k2 TInt
       \<and> snd (incrementIntField k1 p1) = Inl (LogFatal ''could not assert value to int'')
       \<and> snd (incrementIntField k2 p2) = Inl (LogFatal ''could not assert value to int'')
       \<and> c_log (run 3 k1 (start p1)) = c_log (run 3 k2 (start p2))"
proof -
  from assms(1) have t1: "dynamic_type (map_index p1 k1) \<noteq> Some TInt"
    by (simp add: map_index_def)
  from assms(2,3) have t2: "dynamic_type (map_index p2 k2) \<noteq> Some TInt"
    by (simp add: map_index_def)
  have a1: "assert_int (map_index p1 k1) = (0, False)"
    and a2: "assert_int (map_index p2 k2) = (0, False)"
    using t1 t2 by (simp_all add: assert_int_fail)
  have g: "getTyped p1 k1 TInt = getTyped p2 k2 TInt"
    by (simp add: getTyped_def assert_int_type_assert a1 a2)
  have l: "c_log (run 3 k1 (start p1)) = c_log (run 3 k2 (start p2))"
    by (simp add: run_fail a1 a2)
  from a1 a2 g l incrementIntField_fail [OF t1] incrementIntField_fail [OF t2]
  show ?thesis by simp
qed

theorem missing_and_mismatch_alike_witness:
  "[''name'' \<mapsto> StringV ''Alice''] ''age'' = None
   \<and> [''age'' \<mapsto> StringV ''21''] ''age'' = Some (StringV ''21'')
   \<and> dynamic_type (StringV ''21'') \<noteq> Some TInt
   \<and> assert_int (map_index [''name'' \<mapsto> StringV ''Alice''] ''age'')
       = assert_int (map_index [''age'' \<mapsto> StringV ''21''] ''age'')
   \<and> snd (incrementIntField ''age'' [''name'' \<mapsto> StringV ''Alice''])
       = snd (incrementIntField ''age'' [''age'' \<mapsto> StringV ''21''])"
  using missing_and_mismatch_alike
    [of "[''name'' \<mapsto> StringV ''Alice'']" "''age''" "[''age'' \<mapsto> StringV ''21'']" "''age''"
        "StringV ''21''"]
  by simp

end
